theory Spec2Isabelle
  imports Main "HOL-Library.AList"
begin

section \<open>Values, objects and the scene store\<close>

text \<open>
  The adapter is JavaScript. A value is a primitive or a reference into a store of
  objects. \<open>Number\<close> stands for a finite number; \<open>NaN\<close> is kept apart because the
  strict comparison \<^verbatim>\<open>===\<close>, which the Property Applier uses, treats it differently.
  \<open>Object r\<close> and \<open>Function r\<close> both refer to the object at address \<open>r\<close>; the tag
  records what \<^verbatim>\<open>typeof\<close> answers.
\<close>

datatype val =
    Undefined
  | Null
  | Boolean bool
  | NaN
  | Number int
  | String string
  | Object nat
  | Function nat

datatype error = TypeError | ConstructorError | ListenerError

text \<open>
  An object has named fields (\<open>Undefined\<close> where a name is absent) and, when it is an
  array, its elements. Index and \<^verbatim>\<open>length\<close> members of arrays, accessor properties and
  non-writable fields of the scene-graph runtime are not modelled: a field is a slot.
\<close>

record obj =
  field :: "string \<Rightarrow> val"
  elems :: "val list option"

text \<open>
  The field assignments the adapter makes are recorded in order, as a write-counting stub
  would observe them.
\<close>

datatype effect = Assign nat string val

record state =
  heap :: "nat \<Rightarrow> obj"
  fresh :: nat
  trace :: "effect list"

text \<open>
  The scene-graph runtime is an external library. The adapter uses its namespace of
  constructors (\<^verbatim>\<open>THREE[name]\<close>, \<open>None\<close> where the name holds no constructor),
  through member access on a primitive value the members of the primitive wrappers, and
  it calls one method of the runtime's objects: \<open>invoke rt f this type\<close> is the call of
  the function at address \<open>f\<close> as a method of \<open>this\<close> with an event of the given type.
  What that call does is the runtime's and, through the listeners registered on the
  object, the application's: it may change the store and it may raise.
\<close>

record runtime =
  three :: "string \<Rightarrow> (state \<Rightarrow> (error + nat) \<times> state) option"
  prim_member :: "val \<Rightarrow> string \<Rightarrow> val"
  invoke :: "nat \<Rightarrow> val \<Rightarrow> string \<Rightarrow> state \<Rightarrow> error option \<times> state"

fun ref_of :: "val \<Rightarrow> nat option" where
  "ref_of (Object r) = Some r"
| "ref_of (Function r) = Some r"
| "ref_of _ = None"

text \<open>\<^verbatim>\<open>a === b\<close>: identity on references, equality on primitives, never true of NaN.\<close>

definition strict_eq :: "val \<Rightarrow> val \<Rightarrow> bool" where
  "strict_eq a b = (a \<noteq> NaN \<and> a = b)"

text \<open>\<^verbatim>\<open>typeof v === 'function'\<close>\<close>

fun is_function :: "val \<Rightarrow> bool" where
  "is_function (Function r) = True"
| "is_function _ = False"

text \<open>The truth value of \<^verbatim>\<open>if (v)\<close>.\<close>

fun truthy :: "val \<Rightarrow> bool" where
  "truthy Undefined = False"
| "truthy Null = False"
| "truthy (Boolean b) = b"
| "truthy NaN = False"
| "truthy (Number n) = (n \<noteq> 0)"
| "truthy (String s) = (s \<noteq> [])"
| "truthy (Object r) = True"
| "truthy (Function r) = True"

text \<open>
  \<^verbatim>\<open>v[name]\<close>: a TypeError on \<^verbatim>\<open>undefined\<close> and \<^verbatim>\<open>null\<close>, the field of an object, the
  wrapper's member of any other primitive.
\<close>

definition member :: "runtime \<Rightarrow> state \<Rightarrow> val \<Rightarrow> string \<Rightarrow> error + val" where
  "member rt st v name =
     (case v of
        Undefined \<Rightarrow> Inl TypeError
      | Null \<Rightarrow> Inl TypeError
      | Object r \<Rightarrow> Inr (field (heap st r) name)
      | Function r \<Rightarrow> Inr (field (heap st r) name)
      | _ \<Rightarrow> Inr (prim_member rt v name))"

text \<open>
  \<^verbatim>\<open>target[name] = v\<close>. The file is an ES module, hence strict code: assigning to a
  member of a primitive raises a TypeError, as it does on \<^verbatim>\<open>undefined\<close> and \<^verbatim>\<open>null\<close>.
\<close>

definition assign :: "state \<Rightarrow> val \<Rightarrow> string \<Rightarrow> val \<Rightarrow> error option \<times> state" where
  "assign st target name v =
     (case ref_of target of
        None \<Rightarrow> (Some TypeError, st)
      | Some r \<Rightarrow>
          (None, st\<lparr>heap := (heap st)(r := (heap st r)\<lparr>field := (field (heap st r))(name := v)\<rparr>),
                    trace := trace st @ [Assign r name v]\<rparr>))"

section \<open>Strings\<close>

text \<open>
  Keys and type tags are taken to be ASCII: \<^verbatim>\<open>toLowerCase\<close> and \<^verbatim>\<open>upperFirst\<close> move the
  letters A to Z and leave every other character alone.
\<close>

definition upper_letters :: string where
  "upper_letters = ''ABCDEFGHIJKLMNOPQRSTUVWXYZ''"

definition lower_letters :: string where
  "lower_letters = ''abcdefghijklmnopqrstuvwxyz''"

definition lower_char :: "char \<Rightarrow> char" where
  "lower_char c =
     (case map_of (zip upper_letters lower_letters) c of None \<Rightarrow> c | Some d \<Rightarrow> d)"

definition upper_char :: "char \<Rightarrow> char" where
  "upper_char c =
     (case map_of (zip lower_letters upper_letters) c of None \<Rightarrow> c | Some d \<Rightarrow> d)"

definition toLowerCase :: "string \<Rightarrow> string" where
  "toLowerCase s = map lower_char s"

text \<open>lodash \<^verbatim>\<open>upperFirst\<close>: the first character upper-cased, the rest as it is.\<close>

fun upperFirst :: "string \<Rightarrow> string" where
  "upperFirst [] = []"
| "upperFirst (c # cs) = upper_char c # cs"

text \<open>\<^verbatim>\<open>key.startsWith(p)\<close>\<close>

definition startsWith :: "string \<Rightarrow> string \<Rightarrow> bool" where
  "startsWith s p = (take (length p) s = p)"

text \<open>
  \<^verbatim>\<open>key.split(sep)\<close> for a one-character separator: never empty, \<^verbatim>\<open>''.split('-')\<close> is
  \<^verbatim>\<open>['']\<close>.
\<close>

fun split :: "char \<Rightarrow> string \<Rightarrow> string list" where
  "split sep [] = [] # []"
| "split sep (c # cs) =
     (if c = sep then [] # split sep cs
      else (case split sep cs of
              [] \<Rightarrow> [c] # []
            | w # ws \<Rightarrow> (c # w) # ws))"

section \<open>Property bags\<close>

text \<open>
  A property bag is a plain object: its own enumerable keys in the order
  \<^verbatim>\<open>Object.keys\<close> lists them, each with its value. Reading a key that is absent yields
  \<^verbatim>\<open>undefined\<close>.
\<close>

type_synonym props = "(string \<times> val) list"

definition keys :: "props \<Rightarrow> string list" where
  "keys p = map fst p"

definition getProp :: "props \<Rightarrow> string \<Rightarrow> val" where
  "getProp p key = (case map_of p key of None \<Rightarrow> Undefined | Some v \<Rightarrow> v)"

text \<open>
  lodash \<^verbatim>\<open>omit(object, paths)\<close>, for paths that are keys of the object or plain names:
  a copy of the object without those keys.
\<close>

definition omit :: "props \<Rightarrow> string list \<Rightarrow> props" where
  "omit p paths = filter (\<lambda>(key, value). key \<notin> set paths) p"

section \<open>The Property Applier\<close>

text \<open>
  \<^verbatim>\<open>entries.reverse().reduce((acc, key) => acc[key.toLowerCase()], instance)\<close>, given
  the segments in the order the key has them.
\<close>

fun reduce_path :: "runtime \<Rightarrow> state \<Rightarrow> string list \<Rightarrow> val \<Rightarrow> error + val" where
  "reduce_path rt st [] acc = Inr acc"
| "reduce_path rt st (key # rest) acc =
     (case member rt st acc (toLowerCase key) of
        Inl e \<Rightarrow> Inl e
      | Inr v \<Rightarrow> reduce_path rt st rest v)"

text \<open>
  The body of the \<^verbatim>\<open>map\<close> callback, for one entry. \<^verbatim>\<open>[targetName, ...entries]\<close> takes the
  reversed segments apart; \<^verbatim>\<open>entries.reverse()\<close> puts the prefix back in order.
\<close>

definition applyEntry :: "runtime \<Rightarrow> state \<Rightarrow> val \<Rightarrow> string \<Rightarrow> val \<Rightarrow> error option \<times> state" where
  "applyEntry rt st instance key value =
     (case rev (split CHR ''-'' key) of
        [] \<Rightarrow> (Some TypeError, st)
      | targetName # entries \<Rightarrow>
          (case reduce_path rt st (rev entries) instance of
             Inl e \<Rightarrow> (Some e, st)
           | Inr target \<Rightarrow> assign st target (toLowerCase targetName) value))"

text \<open>
  \<^verbatim>\<open>Object.entries(filteredProps).map(...)\<close>: the entries in order, each on the store the
  previous one left; an exception ends the iteration and keeps the writes made so far.
\<close>

fun applyEntries :: "runtime \<Rightarrow> state \<Rightarrow> val \<Rightarrow> props \<Rightarrow> error option \<times> state" where
  "applyEntries rt st instance [] = (None, st)"
| "applyEntries rt st instance ((key, value) # rest) =
     (case applyEntry rt st instance key value of
        (Some e, st') \<Rightarrow> (Some e, st')
      | (None, st') \<Rightarrow> applyEntries rt st' instance rest)"

definition sameProps :: "props \<Rightarrow> props \<Rightarrow> string list" where
  "sameProps newProps oldProps =
     filter (\<lambda>key. strict_eq (getProp newProps key) (getProp oldProps key)) (keys newProps)"

definition handlers :: "props \<Rightarrow> string list" where
  "handlers newProps =
     filter (\<lambda>key. is_function (getProp newProps key) \<and> startsWith key ''on'') (keys newProps)"

definition filteredProps :: "props \<Rightarrow> props \<Rightarrow> props" where
  "filteredProps newProps oldProps =
     omit newProps (sameProps newProps oldProps @ handlers newProps @ [''children'', ''key'', ''ref''])"

definition applyProps :: "runtime \<Rightarrow> state \<Rightarrow> val \<Rightarrow> props \<Rightarrow> props \<Rightarrow> error option \<times> state" where
  "applyProps rt st instance newProps oldProps =
     (if length (keys (filteredProps newProps oldProps)) > 0
      then applyEntries rt st instance (filteredProps newProps oldProps)
      else (None, st))"

text \<open>\<^verbatim>\<open>commitUpdate(instance, updatePayload, type, oldProps, newProps)\<close>\<close>

definition commitUpdate ::
  "runtime \<Rightarrow> state \<Rightarrow> val \<Rightarrow> val \<Rightarrow> string \<Rightarrow> props \<Rightarrow> props \<Rightarrow> error option \<times> state" where
  "commitUpdate rt st instance updatePayload type oldProps newProps =
     applyProps rt st instance newProps oldProps"

section \<open>The host config\<close>

text \<open>
  \<^verbatim>\<open>new THREE[upperFirst(type)]()\<close> raises a TypeError when the namespace holds no
  constructor under that name; a constructor returns the address of the object it built,
  or raises. The three arguments the hook does not use are left out.
\<close>

definition createInstance :: "runtime \<Rightarrow> state \<Rightarrow> string \<Rightarrow> props \<Rightarrow> (error + val) \<times> state" where
  "createInstance rt st type props =
     (case three rt (upperFirst type) of
        None \<Rightarrow> (Inl TypeError, st)
      | Some ctor \<Rightarrow>
          (case ctor st of
             (Inl e, st1) \<Rightarrow> (Inl e, st1)
           | (Inr r, st1) \<Rightarrow>
               (case applyProps rt st1 (Object r) props [] of
                  (Some e, st2) \<Rightarrow> (Inl e, st2)
                | (None, st2) \<Rightarrow> (Inr (Object r), st2))))"

text \<open>
  \<^verbatim>\<open>child.dispatchEvent({ type: 'added' })\<close> is a method call: the member
  \<^verbatim>\<open>dispatchEvent\<close> of the child is read, and calling anything but a function raises a
  TypeError; the function is then run by the runtime.
\<close>

definition dispatchEvent :: "runtime \<Rightarrow> state \<Rightarrow> val \<Rightarrow> string \<Rightarrow> error option \<times> state" where
  "dispatchEvent rt st child type =
     (case member rt st child ''dispatchEvent'' of
        Inl e \<Rightarrow> (Some e, st)
      | Inr f \<Rightarrow>
          (case f of
             Function a \<Rightarrow> invoke rt a child type st
           | _ \<Rightarrow> (Some TypeError, st)))"

text \<open>
  \<^verbatim>\<open>xs.indexOf(x)\<close>: the first index whose element is strictly equal to \<open>x\<close>, or -1.
\<close>

fun indexOfFrom :: "val list \<Rightarrow> val \<Rightarrow> int \<Rightarrow> int" where
  "indexOfFrom [] x i = - 1"
| "indexOfFrom (y # ys) x i = (if strict_eq y x then i else indexOfFrom ys x (i + 1))"

definition indexOf :: "val list \<Rightarrow> val \<Rightarrow> int" where
  "indexOf xs x = indexOfFrom xs x 0"

text \<open>
  \<^verbatim>\<open>xs.slice(start, end)\<close>: a negative bound counts from the end of the array, both
  bounds are clamped to the array, and \<open>None\<close> stands for the end left out.
\<close>

definition relativeIndex :: "int \<Rightarrow> int \<Rightarrow> int" where
  "relativeIndex len i = (if i < 0 then max (len + i) 0 else min i len)"

definition slice :: "'a list \<Rightarrow> int \<Rightarrow> int option \<Rightarrow> 'a list" where
  "slice xs start end =
     (let len = int (length xs);
          k = relativeIndex len start;
          final = (case end of None \<Rightarrow> len | Some e \<Rightarrow> relativeIndex len e)
      in take (nat (final - k)) (drop (nat k) xs))"

text \<open>
  The elements of the array held in \<^verbatim>\<open>parentInstance.children\<close>; calling an array method
  on anything that is not an array raises a TypeError.
\<close>

definition children :: "runtime \<Rightarrow> state \<Rightarrow> val \<Rightarrow> error + val list" where
  "children rt st parentInstance =
     (case member rt st parentInstance ''children'' of
        Inl e \<Rightarrow> Inl e
      | Inr a \<Rightarrow>
          (case ref_of a of
             None \<Rightarrow> Inl TypeError
           | Some r \<Rightarrow> (case elems (heap st r) of None \<Rightarrow> Inl TypeError | Some xs \<Rightarrow> Inr xs)))"

text \<open>An array literal builds a new array object.\<close>

definition newArray :: "state \<Rightarrow> val list \<Rightarrow> val \<times> state" where
  "newArray st xs =
     (Object (fresh st),
      st\<lparr>heap := (heap st)(fresh st := \<lparr>field = (\<lambda>name. Undefined), elems = Some xs\<rparr>),
         fresh := Suc (fresh st)\<rparr>)"

definition insertBefore :: "runtime \<Rightarrow> state \<Rightarrow> val \<Rightarrow> val \<Rightarrow> val \<Rightarrow> error option \<times> state" where
  "insertBefore rt st parentInstance child beforeChild =
     (if truthy child then
        (case assign st child ''parent'' parentInstance of
           (Some e, st1) \<Rightarrow> (Some e, st1)
         | (None, st1) \<Rightarrow>
             (case dispatchEvent rt st1 child ''added'' of
                (Some e, st2) \<Rightarrow> (Some e, st2)
              | (None, st2) \<Rightarrow>
                  (case children rt st2 parentInstance of
                     Inl e \<Rightarrow> (Some e, st2)
                   | Inr cs \<Rightarrow>
                       (let index = indexOf cs beforeChild;
                            (arr, st3) = newArray st2
                              (slice cs 0 (Some index) @ [child] @ slice cs index None)
                        in assign st3 parentInstance ''children'' arr))))
      else (None, st))"

section \<open>Mounting and unmounting\<close>

text \<open>
  The module's table \<^verbatim>\<open>roots\<close> is a \<^verbatim>\<open>Map\<close>, held as its entries in insertion order:
  \<^verbatim>\<open>get\<close> is \<open>map_of\<close>, \<^verbatim>\<open>set\<close> is \<open>AList.update\<close>, \<^verbatim>\<open>delete\<close> is \<open>AList.delete\<close>.
\<close>

type_synonym ('c, 'r) table = "('c \<times> 'r) list"

text \<open>
  The reconciliation engine is an external library, taken as a parameter: its state
  \<open>'e\<close> is opaque, \<^verbatim>\<open>createContainer\<close> hands out a root handle, and
  \<^verbatim>\<open>updateContainer(element, root, null, callback)\<close> does the engine's work for an element
  (\<open>None\<close> is \<^verbatim>\<open>null\<close>). It is handed the completion callback, a function on the table,
  or \<open>None\<close> for \<^verbatim>\<open>undefined\<close>. The engine cannot reach the table itself; whether it
  has invoked the callback by the time it returns is its own decision and the second
  component of its result, next to the error it raises, if any. A callback it has not
  invoked by then is deferred.
\<close>

record ('c, 'el, 'r, 'e, 'i) reconciler =
  createContainer :: "'c \<Rightarrow> 'e \<Rightarrow> 'r \<times> 'e"
  updateContainer ::
    "'el option \<Rightarrow> 'r \<Rightarrow> (('c, 'r) table \<Rightarrow> ('c, 'r) table) option \<Rightarrow> 'e
       \<Rightarrow> error option \<times> bool \<times> 'e"
  getPublicRootInstance :: "'r \<Rightarrow> 'e \<Rightarrow> 'i"

text \<open>The module's state: the table and the state of the engine.\<close>

record ('c, 'r, 'e) mounts =
  roots :: "('c, 'r) table"
  engine :: "'e"

definition render ::
  "('c, 'el, 'r, 'e, 'i) reconciler \<Rightarrow> 'el option \<Rightarrow> 'c \<Rightarrow> ('c, 'r, 'e) mounts
     \<Rightarrow> (error + 'i) \<times> ('c, 'r, 'e) mounts" where
  "render Renderer element container s =
     (let (root, s1) =
            (case map_of (roots s) container of
               Some root \<Rightarrow> (root, s)
             | None \<Rightarrow>
                 (let (root, e1) = createContainer Renderer container (engine s)
                  in (root, s\<lparr>roots := AList.update container root (roots s), engine := e1\<rparr>)))
      in (case updateContainer Renderer element root None (engine s1) of
            (Some err, invoked, e2) \<Rightarrow> (Inl err, s1\<lparr>engine := e2\<rparr>)
          | (None, invoked, e2) \<Rightarrow>
              (Inr (getPublicRootInstance Renderer root e2), s1\<lparr>engine := e2\<rparr>)))"

text \<open>
  \<^verbatim>\<open>unmountComponentAtNode\<close> hands the engine the callback
  \<^verbatim>\<open>() => roots.delete(container)\<close>; the table changes only if the engine invokes it.
\<close>

definition unmountComponentAtNode ::
  "('c, 'el, 'r, 'e, 'i) reconciler \<Rightarrow> 'c \<Rightarrow> ('c, 'r, 'e) mounts
     \<Rightarrow> error option \<times> ('c, 'r, 'e) mounts" where
  "unmountComponentAtNode Renderer container s =
     (case map_of (roots s) container of
        None \<Rightarrow> (None, s)
      | Some root \<Rightarrow>
          (let callback = AList.delete container
           in (case updateContainer Renderer None root (Some callback) (engine s) of
                 (err, invoked, e1) \<Rightarrow>
                   (err, s\<lparr>engine := e1,
                            roots := (if invoked then callback (roots s) else roots s)\<rparr>))))"

text \<open>A sequence of \<^verbatim>\<open>render\<close> calls, each on the state the previous one left.\<close>

fun renders ::
  "('c, 'el, 'r, 'e, 'i) reconciler \<Rightarrow> ('el option \<times> 'c) list \<Rightarrow> ('c, 'r, 'e) mounts
     \<Rightarrow> ('c, 'r, 'e) mounts" where
  "renders Renderer [] s = s"
| "renders Renderer ((element, container) # calls) s =
     renders Renderer calls (snd (render Renderer element container s))"

section \<open>The properties' vocabulary\<close>

text \<open>
  Three notions in which the properties of the Property Applier are stated; none of them
  is part of the adapter. \<open>joinPath\<close> writes a key from its segments, as
  \<^verbatim>\<open>segments.join('-')\<close> does. \<open>reaches rt st v segments target\<close> says that the chain of
  member lookups under the lower-cased segments, read left to right from \<open>v\<close> in the
  store \<open>st\<close>, ends in \<open>target\<close>. \<open>advance st ws\<close> is the store \<open>st\<close> after the field
  assignments \<open>ws\<close>, made in order and recorded.
\<close>

fun joinPath :: "string list \<Rightarrow> string" where
  "joinPath [] = []"
| "joinPath [s] = s"
| "joinPath (s # t # ts) = s @ CHR ''-'' # joinPath (t # ts)"

fun reaches :: "runtime \<Rightarrow> state \<Rightarrow> val \<Rightarrow> string list \<Rightarrow> val \<Rightarrow> bool" where
  "reaches rt st v [] target = (target = v)"
| "reaches rt st v (segment # segments) target =
     (case member rt st v (toLowerCase segment) of
        Inl e \<Rightarrow> False
      | Inr w \<Rightarrow> reaches rt st w segments target)"

fun written :: "(nat \<Rightarrow> obj) \<Rightarrow> effect \<Rightarrow> (nat \<Rightarrow> obj)" where
  "written h (Assign r name v) = h(r := (h r)\<lparr>field := (field (h r))(name := v)\<rparr>)"

definition advance :: "state \<Rightarrow> effect list \<Rightarrow> state" where
  "advance st ws = st\<lparr>heap := foldl written (heap st) ws, trace := trace st @ ws\<rparr>"

section \<open>A small scene\<close>

text \<open>
  The store used to run the operations on concrete input. Address 0 holds the
  runtime's \<^verbatim>\<open>dispatchEvent\<close> function. The mesh at address 1 has its material at
  address 2, its position at 11 and its rotation at 12. The group at address 3 has the
  children array at address 4, which holds the nodes 5 and 6; 7 is a further node. The
  objects at 8 and 9 are no event dispatchers (a vector, say). In \<open>exampleRuntime\<close> the
  namespace has the one constructor \<^verbatim>\<open>Mesh\<close> and no listener is registered anywhere;
  in \<open>raisingRuntime\<close> a listener raises; in \<open>detachingRuntime\<close> a listener takes node 6
  out of the group's children array.
\<close>

definition blank :: obj where
  "blank = \<lparr>field = (\<lambda>name. Undefined), elems = None\<rparr>"

definition node :: obj where
  "node = blank\<lparr>field := (\<lambda>name. Undefined)(''dispatchEvent'' := Function 0)\<rparr>"

definition exampleHeap :: "nat \<Rightarrow> obj" where
  "exampleHeap =
     (\<lambda>r. blank)
       (1 := blank\<lparr>field := (\<lambda>name. Undefined)
                 (''material'' := Object 2, ''position'' := Object 11, ''rotation'' := Object 12,
                  ''dispatchEvent'' := Function 0)\<rparr>,
        2 := blank\<lparr>field := (\<lambda>name. Undefined)(''color'' := Number 0)\<rparr>,
        3 := blank\<lparr>field := (\<lambda>name. Undefined)
                 (''children'' := Object 4, ''dispatchEvent'' := Function 0)\<rparr>,
        4 := blank\<lparr>elems := Some [Object 5, Object 6]\<rparr>,
        5 := node,
        6 := node,
        7 := node,
        11 := blank\<lparr>field := (\<lambda>name. Undefined)(''x'' := Number 0)\<rparr>,
        12 := blank\<lparr>field := (\<lambda>name. Undefined)(''x'' := Number 0)\<rparr>)"

definition exampleState :: state where
  "exampleState = \<lparr>heap = exampleHeap, fresh = 20, trace = []\<rparr>"

definition newObject :: "state \<Rightarrow> (error + nat) \<times> state" where
  "newObject st =
     (Inr (fresh st), st\<lparr>heap := (heap st)(fresh st := blank), fresh := Suc (fresh st)\<rparr>)"

definition exampleRuntime :: runtime where
  "exampleRuntime =
     \<lparr>three = (\<lambda>name. if name = ''Mesh'' then Some newObject else None),
      prim_member = (\<lambda>v name. Undefined),
      invoke = (\<lambda>f this type st. (None, st))\<rparr>"

definition raisingRuntime :: runtime where
  "raisingRuntime = exampleRuntime\<lparr>invoke := (\<lambda>f this type st. (Some ListenerError, st))\<rparr>"

definition detachingRuntime :: runtime where
  "detachingRuntime =
     exampleRuntime
       \<lparr>invoke := (\<lambda>f this type st.
          (None, st\<lparr>heap := (heap st)(4 := (heap st 4)\<lparr>elems := Some [Object 5]\<rparr>)\<rparr>))\<rparr>"

text \<open>
  Engines for the mount table. The state of \<open>exampleEngine\<close> counts the containers it has
  created and the updates it has run, a root handle is the number of its container, an
  update with the element \<open>Some False\<close> raises, and the callback is invoked before the
  update returns; \<open>deferringEngine\<close> differs in that it has not invoked the callback
  when it returns.
\<close>

definition exampleEngine :: "(string, bool, nat, nat \<times> nat, nat) reconciler" where
  "exampleEngine =
     \<lparr>createContainer = (\<lambda>container (created, updates). (Suc created, (Suc created, updates))),
      updateContainer = (\<lambda>element root callback (created, updates).
         (if element = Some False then Some ConstructorError else None, True,
          (created, Suc updates))),
      getPublicRootInstance = (\<lambda>root e. root)\<rparr>"

definition deferringEngine :: "(string, bool, nat, nat \<times> nat, nat) reconciler" where
  "deferringEngine =
     exampleEngine
       \<lparr>updateContainer := (\<lambda>element root callback (created, updates).
          (None, False, (created, Suc updates)))\<rparr>"

text \<open>
  Engines that mount a descriptor, a type tag with its property bag, by instantiating it
  in the scene store they hold: \<open>mountingEngine\<close> raises what \<open>createInstance\<close> raises,
  \<open>recoveringEngine\<close> handles the error itself, as an error boundary in the tree does,
  and completes.
\<close>

definition mountingEngine :: "runtime \<Rightarrow> (string, string \<times> props, nat, state \<times> nat, nat) reconciler" where
  "mountingEngine rt =
     \<lparr>createContainer = (\<lambda>container (st, created). (Suc created, (st, Suc created))),
      updateContainer = (\<lambda>element root callback (st, created).
         (case element of
            None \<Rightarrow> (None, True, (st, created))
          | Some (type, props) \<Rightarrow>
              (case createInstance rt st type props of
                 (Inl e, st') \<Rightarrow> (Some e, False, (st', created))
               | (Inr instance, st') \<Rightarrow> (None, True, (st', created))))),
      getPublicRootInstance = (\<lambda>root e. root)\<rparr>"

definition recoveringEngine :: "runtime \<Rightarrow> (string, string \<times> props, nat, state \<times> nat, nat) reconciler" where
  "recoveringEngine rt =
     \<lparr>createContainer = (\<lambda>container (st, created). (Suc created, (st, Suc created))),
      updateContainer = (\<lambda>element root callback (st, created).
         (case element of
            None \<Rightarrow> (None, True, (st, created))
          | Some (type, props) \<Rightarrow>
              (case createInstance rt st type props of
                 (Inl e, st') \<Rightarrow> (None, True, (st', created))
               | (Inr instance, st') \<Rightarrow> (None, True, (st', created))))),
      getPublicRootInstance = (\<lambda>root e. root)\<rparr>"

definition noMounts :: "'e \<Rightarrow> ('c, 'r, 'e) mounts" where
  "noMounts e = \<lparr>roots = [], engine = e\<rparr>"

section \<open>Sibling insertion\<close>

lemma indexOfFrom_found:
  "x \<noteq> NaN \<Longrightarrow> x \<notin> set pre \<Longrightarrow> indexOfFrom (pre @ x # post) x i = i + int (length pre)"
  by (induction pre arbitrary: i) (auto simp: strict_eq_def)

lemma indexOfFrom_absent:
  "x \<notin> set xs \<Longrightarrow> indexOfFrom xs x i = - 1"
  by (induction xs arbitrary: i) (auto simp: strict_eq_def)

lemma slice_take: "n \<le> length xs \<Longrightarrow> slice xs 0 (Some (int n)) = take n xs"
  by (simp add: slice_def relativeIndex_def)

lemma slice_drop: "n \<le> length xs \<Longrightarrow> slice xs (int n) None = drop n xs"
  by (simp add: slice_def relativeIndex_def)

lemma slice_butlast: "slice xs 0 (Some (- 1)) = butlast xs"
proof (cases xs rule: rev_cases)
  case Nil
  then show ?thesis by (simp add: slice_def relativeIndex_def)
next
  case (snoc ys y)
  then show ?thesis by (simp add: slice_def relativeIndex_def)
qed

lemma slice_last: "slice xs (- 1) None = (if xs = [] then [] else [last xs])"
proof (cases xs rule: rev_cases)
  case Nil
  then show ?thesis by (simp add: slice_def relativeIndex_def)
next
  case (snoc ys y)
  then show ?thesis by (simp add: slice_def relativeIndex_def)
qed


lemma children_after_assign_parent:
  assumes "assign st child ''parent'' v = (None, st1)"
  shows "children rt st1 x = children rt st x"
proof -
  from assms obtain r where st1:
    "st1 = st\<lparr>heap := (heap st)(r := (heap st r)\<lparr>field := (field (heap st r))(''parent'' := v)\<rparr>),
               trace := trace st @ [Assign r ''parent'' v]\<rparr>"
    by (auto simp: assign_def split: option.splits)
  show ?thesis
    unfolding st1 by (cases x) (simp_all add: children_def member_def split: option.splits)
qed

lemma insertBefore_node:
  assumes "assign st (Object c) ''parent'' (Object p) = (None, st1)"
    and "dispatchEvent rt st1 (Object c) ''added'' = (None, st2)"
    and "children rt st2 (Object p) = Inr cs"
  shows "\<exists>st'. insertBefore rt st (Object p) (Object c) beforeChild = (None, st')
           \<and> children rt st' (Object p)
               = Inr (slice cs 0 (Some (indexOf cs beforeChild)) @ [Object c]
                      @ slice cs (indexOf cs beforeChild) None)"
  using assms
  by (simp add: insertBefore_def newArray_def Let_def)
     (simp add: assign_def children_def member_def)

text \<open>
  Claim C1, as amended. The adapter's own write to \<^verbatim>\<open>child.parent\<close> leaves the parent's
  children sequence as it was. When the child's \<^verbatim>\<open>added\<close> notification completes, that
  is, the child has a \<^verbatim>\<open>dispatchEvent\<close> method and no listener raises, and the children
  sequence as the notification leaves it contains \<open>beforeChild\<close>, \<open>insertBefore\<close>
  completes and leaves the parent with that sequence in which the child stands
  immediately before the first occurrence of \<open>beforeChild\<close>: the siblings in front of it
  and behind it are the same, in the same order. With children \<open>[A, C]\<close>, inserting \<open>B\<close>
  before \<open>C\<close> yields \<open>[A, B, C]\<close>.
\<close>

theorem insertBefore_places_child_before:
  assumes "assign st (Object c) ''parent'' (Object p) = (None, st1)"
    and "dispatchEvent rt st1 (Object c) ''added'' = (None, st2)"
    and "children rt st2 (Object p) = Inr cs"
    and "Object b \<in> set cs"
  shows "children rt st1 (Object p) = children rt st (Object p)
         \<and> (\<exists>st' pre post.
               insertBefore rt st (Object p) (Object c) (Object b) = (None, st')
               \<and> cs = pre @ Object b # post \<and> Object b \<notin> set pre
               \<and> children rt st' (Object p) = Inr (pre @ Object c # Object b # post))"
proof
  show "children rt st1 (Object p) = children rt st (Object p)"
    using assms(1) by (rule children_after_assign_parent)
next
  from assms(4) obtain pre post where cs: "cs = pre @ Object b # post" and pre: "Object b \<notin> set pre"
    by (auto dest: split_list_first)
  have idx: "indexOf cs (Object b) = int (length pre)"
    using pre by (simp add: cs indexOf_def indexOfFrom_found)
  have "slice cs 0 (Some (int (length pre))) = pre" and "slice cs (int (length pre)) None = Object b # post"
    by (simp_all add: cs slice_take slice_drop)
  with insertBefore_node [OF assms(1-3), of "Object b"] idx cs pre
  show "\<exists>st' pre post.
               insertBefore rt st (Object p) (Object c) (Object b) = (None, st')
               \<and> cs = pre @ Object b # post \<and> Object b \<notin> set pre
               \<and> children rt st' (Object p) = Inr (pre @ Object c # Object b # post)"
    by auto
qed

lemmas scene_eval = exampleState_def exampleHeap_def blank_def node_def exampleRuntime_def
  raisingRuntime_def detachingRuntime_def

lemmas insert_eval = insertBefore_def dispatchEvent_def children_def member_def assign_def
  newArray_def indexOf_def slice_def relativeIndex_def strict_eq_def

theorem insertBefore_places_child_before_witness:
  "children exampleRuntime exampleState (Object 3) = Inr [Object 5, Object 6]
   \<and> Object 6 \<in> set [Object 5, Object 6]
   \<and> (\<exists>st'. insertBefore exampleRuntime exampleState (Object 3) (Object 7) (Object 6) = (None, st')
         \<and> children exampleRuntime st' (Object 3) = Inr [Object 5, Object 7, Object 6])"
proof -
  define st1 where "st1 = snd (assign exampleState (Object 7) ''parent'' (Object 3))"
  have a: "assign exampleState (Object 7) ''parent'' (Object 3) = (None, st1)"
    by (simp add: st1_def assign_def)
  have d: "dispatchEvent exampleRuntime st1 (Object 7) ''added'' = (None, st1)"
    by (simp add: st1_def dispatchEvent_def member_def assign_def scene_eval)
  have c0: "children exampleRuntime exampleState (Object 3) = Inr [Object 5, Object 6]"
    by (simp add: children_def member_def scene_eval)
  have c: "children exampleRuntime st1 (Object 3) = Inr [Object 5, Object 6]"
    using children_after_assign_parent [OF a] c0 by simp
  have m: "Object 6 \<in> set [Object 5, Object 6]" by simp
  from insertBefore_places_child_before [OF a d c m]
  obtain st' pre post where
    r: "insertBefore exampleRuntime exampleState (Object 3) (Object 7) (Object 6) = (None, st')"
    and s: "[Object 5, Object 6] = pre @ Object 6 # post" "Object 6 \<notin> set pre"
    and k: "children exampleRuntime st' (Object 3) = Inr (pre @ Object 7 # Object 6 # post)"
    by blast
  from s have "pre = [Object 5] \<and> post = []"
    by (cases pre; cases "tl pre") auto
  with c0 m r k show ?thesis by auto
qed

text \<open>
  Claim C1 as stated fails where the notification does not go through. For a child that
  is an object without a \<^verbatim>\<open>dispatchEvent\<close> method the call raises a TypeError and the
  children stay \<open>[A, C]\<close>; so they do when a listener raises; and when a listener takes
  \<open>C\<close> out of the children the result is \<open>[B, A]\<close>, not the old sequence with \<open>B\<close>
  before \<open>C\<close>.
\<close>

theorem insertBefore_notification_fails:
  "children exampleRuntime exampleState (Object 3) = Inr [Object 5, Object 6]
   \<and> member exampleRuntime exampleState (Object 8) ''dispatchEvent'' = Inr Undefined
   \<and> fst (insertBefore exampleRuntime exampleState (Object 3) (Object 8) (Object 6)) = Some TypeError
   \<and> children exampleRuntime
        (snd (insertBefore exampleRuntime exampleState (Object 3) (Object 8) (Object 6))) (Object 3)
       = Inr [Object 5, Object 6]
   \<and> fst (insertBefore raisingRuntime exampleState (Object 3) (Object 7) (Object 6)) = Some ListenerError
   \<and> children raisingRuntime
        (snd (insertBefore raisingRuntime exampleState (Object 3) (Object 7) (Object 6))) (Object 3)
       = Inr [Object 5, Object 6]
   \<and> fst (insertBefore detachingRuntime exampleState (Object 3) (Object 7) (Object 6)) = None
   \<and> children detachingRuntime
        (snd (insertBefore detachingRuntime exampleState (Object 3) (Object 7) (Object 6))) (Object 3)
       = Inr [Object 7, Object 5]"
  by (simp add: insert_eval scene_eval)

text \<open>
  Claim C9, as amended. When the child's \<^verbatim>\<open>added\<close> notification completes and
  \<open>beforeChild\<close> is not in the parent's children sequence, the lookup yields -1 and the
  child is placed immediately before the last element of the sequence, neither appended
  nor rejected (on an empty sequence it becomes the only element). With children
  \<open>[A, C]\<close> and an unrelated \<open>beforeChild\<close> the result is \<open>[A, child, C]\<close>.
\<close>

theorem insertBefore_absent_sibling:
  assumes "assign st (Object c) ''parent'' (Object p) = (None, st1)"
    and "dispatchEvent rt st1 (Object c) ''added'' = (None, st2)"
    and "children rt st2 (Object p) = Inr cs"
    and "beforeChild \<notin> set cs"
  shows "\<exists>st'. insertBefore rt st (Object p) (Object c) beforeChild = (None, st')
           \<and> children rt st' (Object p)
               = Inr (butlast cs @ Object c # (if cs = [] then [] else [last cs]))"
proof -
  have "indexOf cs beforeChild = - 1"
    using assms(4) by (simp add: indexOf_def indexOfFrom_absent)
  with insertBefore_node [OF assms(1-3), of beforeChild] show ?thesis
    by (simp add: slice_butlast slice_last)
qed

theorem insertBefore_absent_sibling_witness:
  "children exampleRuntime exampleState (Object 3) = Inr [Object 5, Object 6]
   \<and> Object 9 \<notin> set [Object 5, Object 6]
   \<and> (\<exists>st'. insertBefore exampleRuntime exampleState (Object 3) (Object 7) (Object 9) = (None, st')
         \<and> children exampleRuntime st' (Object 3) = Inr [Object 5, Object 7, Object 6])"
proof -
  define st1 where "st1 = snd (assign exampleState (Object 7) ''parent'' (Object 3))"
  have a: "assign exampleState (Object 7) ''parent'' (Object 3) = (None, st1)"
    by (simp add: st1_def assign_def)
  have d: "dispatchEvent exampleRuntime st1 (Object 7) ''added'' = (None, st1)"
    by (simp add: st1_def dispatchEvent_def member_def assign_def scene_eval)
  have c0: "children exampleRuntime exampleState (Object 3) = Inr [Object 5, Object 6]"
    by (simp add: children_def member_def scene_eval)
  have c: "children exampleRuntime st1 (Object 3) = Inr [Object 5, Object 6]"
    using children_after_assign_parent [OF a] c0 by simp
  have m: "Object 9 \<notin> set [Object 5, Object 6]" by simp
  from insertBefore_absent_sibling [OF a d c m] c0 m show ?thesis by simp
qed

text \<open>
  Claim C9 as stated fails where the notification does not complete: with an unrelated
  \<open>beforeChild\<close>, a child without a \<^verbatim>\<open>dispatchEvent\<close> method makes the call raise a
  TypeError, a raising listener makes it raise too, and in both cases the children stay
  \<open>[A, C]\<close>.
\<close>

theorem insertBefore_absent_sibling_notification_fails:
  "children exampleRuntime exampleState (Object 3) = Inr [Object 5, Object 6]
   \<and> Object 9 \<notin> set [Object 5, Object 6]
   \<and> member exampleRuntime exampleState (Object 8) ''dispatchEvent'' = Inr Undefined
   \<and> fst (insertBefore exampleRuntime exampleState (Object 3) (Object 8) (Object 9)) = Some TypeError
   \<and> children exampleRuntime
        (snd (insertBefore exampleRuntime exampleState (Object 3) (Object 8) (Object 9))) (Object 3)
       = Inr [Object 5, Object 6]
   \<and> fst (insertBefore raisingRuntime exampleState (Object 3) (Object 7) (Object 9)) = Some ListenerError
   \<and> children raisingRuntime
        (snd (insertBefore raisingRuntime exampleState (Object 3) (Object 7) (Object 9))) (Object 3)
       = Inr [Object 5, Object 6]"
  by (simp add: insert_eval scene_eval)

section \<open>Property writes\<close>

lemma omit_all: "set (keys p) \<subseteq> set paths \<Longrightarrow> omit p paths = []"
  by (auto simp: omit_def keys_def filter_empty_conv)

lemma getProp_in: "key \<in> set (keys p) \<Longrightarrow> (key, getProp p key) \<in> set p"
  unfolding getProp_def keys_def
  by (auto split: option.splits simp: map_of_eq_None_iff dest: map_of_SomeD)

text \<open>
  Claim C3. When every entry of the new bag is a function under a name that starts with
  \<^verbatim>\<open>on\<close>, or has one of the reserved keys \<^verbatim>\<open>children\<close>, \<^verbatim>\<open>key\<close> and \<^verbatim>\<open>ref\<close>, the
  Property Applier completes and leaves the store as it was, whatever the node and the
  old bag: no field is assigned. The bag \<^verbatim>\<open>{ onClick: fn, children: [...], key: "k" }\<close>
  against an empty old bag is such a case.
\<close>

theorem applyProps_handlers_structural_no_write:
  assumes "\<forall>(key, value) \<in> set newProps.
             (is_function value \<and> startsWith key ''on'') \<or> key \<in> {''children'', ''key'', ''ref''}"
  shows "applyProps rt st instance newProps oldProps = (None, st)"
proof -
  have "set (keys newProps)
          \<subseteq> set (sameProps newProps oldProps @ handlers newProps @ [''children'', ''key'', ''ref''])"
  proof
    fix key assume k: "key \<in> set (keys newProps)"
    then have "(key, getProp newProps key) \<in> set newProps" by (rule getProp_in)
    with assms have "(is_function (getProp newProps key) \<and> startsWith key ''on'')
                      \<or> key \<in> {''children'', ''key'', ''ref''}" by blast
    with k show "key \<in> set (sameProps newProps oldProps @ handlers newProps @ [''children'', ''key'', ''ref''])"
      by (auto simp: handlers_def)
  qed
  then have "filteredProps newProps oldProps = []"
    unfolding filteredProps_def by (rule omit_all)
  then show ?thesis by (simp add: applyProps_def keys_def)
qed

theorem applyProps_handlers_structural_no_write_witness:
  "applyProps exampleRuntime exampleState (Object 1)
     [(''onClick'', Function 8), (''children'', Object 9), (''key'', String ''k'')] []
   = (None, exampleState)"
  using applyProps_handlers_structural_no_write [of "[(''onClick'', Function 8), (''children'', Object 9), (''key'', String ''k'')]" exampleRuntime exampleState "Object 1" "[]"]
  by (simp add: startsWith_def)

lemmas string_eval = toLowerCase_def lower_char_def upper_char_def upper_letters_def lower_letters_def
  startsWith_def

lemmas bag_eval = applyProps_def filteredProps_def sameProps_def handlers_def omit_def keys_def
  getProp_def strict_eq_def

lemmas store_eval = applyEntry_def member_def assign_def

text \<open>
  Claim C2, as amended. On a node whose field \<^verbatim>\<open>material\<close> holds an object, the new bag
  \<^verbatim>\<open>{ "material-color": X }\<close> against the old bag \<^verbatim>\<open>{}\<close>, for \<open>X\<close> other than
  \<^verbatim>\<open>undefined\<close>, completes with exactly one write: \<open>X\<close> is assigned to the field
  \<^verbatim>\<open>color\<close> of that object, and the rest of the store is as it was.
\<close>

theorem applyProps_nested_path_write:
  assumes "field (heap st n) ''material'' = Object m" and "X \<noteq> Undefined"
  shows "applyProps rt st (Object n) [(''material-color'', X)] []
         = (None, st\<lparr>heap := (heap st)(m := (heap st m)\<lparr>field := (field (heap st m))(''color'' := X)\<rparr>),
                     trace := trace st @ [Assign m ''color'' X]\<rparr>)"
proof -
  have f: "filteredProps [(''material-color'', X)] [] = [(''material-color'', X)]"
    using assms(2) by (auto simp: filteredProps_def sameProps_def handlers_def omit_def keys_def
        getProp_def strict_eq_def startsWith_def)
  have s: "rev (split CHR ''-'' ''material-color'') = [''color'', ''material'']" by simp
  have e: "applyEntry rt st (Object n) ''material-color'' X
           = (None, st\<lparr>heap := (heap st)(m := (heap st m)\<lparr>field := (field (heap st m))(''color'' := X)\<rparr>),
                     trace := trace st @ [Assign m ''color'' X]\<rparr>)"
    unfolding applyEntry_def s using assms(1) by (simp add: member_def assign_def string_eval)
  show ?thesis by (simp add: applyProps_def f keys_def e)
qed

theorem applyProps_nested_path_write_witness:
  "field (heap exampleState 1) ''material'' = Object 2 \<and> Number 255 \<noteq> Undefined
   \<and> applyProps exampleRuntime exampleState (Object 1) [(''material-color'', Number 255)] []
     = (None, exampleState\<lparr>heap := (heap exampleState)(2 := (heap exampleState 2)\<lparr>field := (field (heap exampleState 2))(''color'' := Number 255)\<rparr>),
                     trace := trace exampleState @ [Assign 2 ''color'' (Number 255)]\<rparr>)"
proof -
  have a: "field (heap exampleState 1) ''material'' = Object 2"
    by (simp add: exampleState_def exampleHeap_def blank_def)
  have b: "Number 255 \<noteq> Undefined" by simp
  from applyProps_nested_path_write [OF a b, of exampleRuntime] a b show ?thesis by simp
qed

text \<open>
  Claim C2 as stated fails for \<open>X\<close> = \<^verbatim>\<open>undefined\<close>: the old bag has no such key, the
  comparison \<^verbatim>\<open>undefined === undefined\<close> classifies the key as unchanged, and nothing is
  written.
\<close>

theorem applyProps_undefined_not_written:
  "field (heap exampleState 1) ''material'' = Object 2
   \<and> applyProps exampleRuntime exampleState (Object 1) [(''material-color'', Undefined)] []
     = (None, exampleState)"
  by (simp add: exampleState_def exampleHeap_def blank_def bag_eval string_eval)

text \<open>
  Claim C4, as amended. For a bag \<open>P\<close> none of whose values is NaN, \<open>commitUpdate\<close> with
  \<open>P\<close> as the old and as the new bag classifies every key as unchanged, does not iterate,
  and returns the store as it was.
\<close>

theorem commitUpdate_same_bag_no_write:
  assumes "\<forall>(key, value) \<in> set P. value \<noteq> NaN"
  shows "commitUpdate rt st instance updatePayload type P P = (None, st)"
proof -
  have "set (keys P) \<subseteq> set (sameProps P P @ handlers P @ [''children'', ''key'', ''ref''])"
  proof
    fix key assume k: "key \<in> set (keys P)"
    then have "(key, getProp P key) \<in> set P" by (rule getProp_in)
    with assms have "getProp P key \<noteq> NaN" by blast
    with k show "key \<in> set (sameProps P P @ handlers P @ [''children'', ''key'', ''ref''])"
      by (simp add: sameProps_def strict_eq_def)
  qed
  then have "filteredProps P P = []"
    unfolding filteredProps_def by (rule omit_all)
  then show ?thesis by (simp add: commitUpdate_def applyProps_def keys_def)
qed

theorem commitUpdate_same_bag_no_write_witness:
  "commitUpdate exampleRuntime exampleState (Object 1) (Object 0) ''mesh''
     [(''visible'', Boolean True), (''material-color'', Number 255)]
     [(''visible'', Boolean True), (''material-color'', Number 255)]
   = (None, exampleState)"
  using commitUpdate_same_bag_no_write [of "[(''visible'', Boolean True), (''material-color'', Number 255)]" exampleRuntime exampleState "Object 1" "Object 0" "''mesh''"]
  by simp

text \<open>
  Claim C4 as stated fails for a bag that holds NaN: \<^verbatim>\<open>NaN === NaN\<close> is false, so the key
  is a candidate write and its field is assigned again.
\<close>

theorem commitUpdate_NaN_written_again:
  "trace exampleState = []
   \<and> trace (snd (commitUpdate exampleRuntime exampleState (Object 1) (Object 0) ''mesh''
               [(''visible'', NaN)] [(''visible'', NaN)]))
     = [Assign 1 ''visible'' NaN]"
  by (simp add: commitUpdate_def exampleState_def exampleHeap_def blank_def bag_eval string_eval store_eval)






lemma split_nonempty: "split sep s \<noteq> []"
  by (induction s) (auto split: list.splits)


lemma split_no_separator: "sep \<notin> set s \<Longrightarrow> split sep s = [s]"
  by (induction s) auto



lemma getProp_filter_keys:
  "key \<in> set ks \<Longrightarrow> getProp (filter (\<lambda>(k, v). k \<in> set ks) p) key = getProp p key"
  by (induction p) (auto simp: getProp_def)

lemma filteredProps_old_restricted:
  "filteredProps newProps (filter (\<lambda>(k, v). k \<in> set (keys newProps)) oldProps)
   = filteredProps newProps oldProps"
proof -
  have "sameProps newProps (filter (\<lambda>(k, v). k \<in> set (keys newProps)) oldProps)
        = sameProps newProps oldProps"
    unfolding sameProps_def by (rule filter_cong) (simp_all add: getProp_filter_keys)
  then show ?thesis by (simp add: filteredProps_def)
qed

lemma filteredProps_subset: "set (filteredProps newProps oldProps) \<subseteq> set newProps"
  by (auto simp: filteredProps_def omit_def)


lemma split_separator_free: "\<forall>s \<in> set (split sep key). sep \<notin> set s"
proof (induction key)
  case Nil
  then show ?case by simp
next
  case (Cons c key)
  then show ?case
    using split_nonempty [of sep key] by (auto split: list.splits)
qed

lemma joinPath_Cons: "ws \<noteq> [] \<Longrightarrow> joinPath ((c # w) # ws) = c # joinPath (w # ws)"
  by (cases ws) simp_all

lemma joinPath_split: "joinPath (split CHR ''-'' key) = key"
proof (induction key)
  case Nil
  then show ?case by simp
next
  case (Cons c key)
  obtain w ws where s: "split CHR ''-'' key = w # ws"
    using split_nonempty [of "CHR ''-''" key] by (cases "split CHR ''-'' key") auto
  show ?case
  proof (cases "c = CHR ''-''")
    case True
    with Cons s show ?thesis by simp
  next
    case False
    with Cons s show ?thesis by (cases ws) simp_all
  qed
qed

lemma split_prefix: "sep \<notin> set s \<Longrightarrow> split sep (s @ sep # rest) = s # split sep rest"
  by (induction s) auto

lemma split_joinPath:
  "segments \<noteq> [] \<Longrightarrow> \<forall>s \<in> set segments. CHR ''-'' \<notin> set s
     \<Longrightarrow> split CHR ''-'' (joinPath segments) = segments"
proof (induction segments rule: joinPath.induct)
  case 1
  then show ?case by simp
next
  case (2 s)
  then show ?case by (simp add: split_no_separator)
next
  case (3 s t ts)
  then show ?case by (simp add: split_prefix)
qed

lemma reduce_path_reaches:
  "reduce_path rt st segments v = Inr target \<longleftrightarrow> reaches rt st v segments target"
  by (induction segments arbitrary: v) (auto split: sum.splits)

lemma advance_Nil: "advance st [] = st"
  by (simp add: advance_def)

lemma advance_append: "advance (advance st ws) ws' = advance st (ws @ ws')"
  by (simp add: advance_def)

lemma assign_advance:
  "ref_of target = Some r \<Longrightarrow> assign st target name v = (None, advance st [Assign r name v])"
  by (simp add: assign_def advance_def)

lemma advance_frame:
  "\<forall>v. Assign r name v \<notin> set ws \<Longrightarrow> field (heap (advance st ws) r) name = field (heap st r) name"
proof (induction ws rule: rev_induct)
  case Nil
  then show ?case by (simp add: advance_def)
next
  case (snoc w ws)
  obtain r' name' v' where w: "w = Assign r' name' v'" by (cases w)
  from snoc.prems w have "\<not> (r' = r \<and> name' = name)" by auto
  moreover from snoc have "field (heap (advance st ws) r) name = field (heap st r) name" by simp
  ultimately show ?case by (auto simp: advance_def w)
qed

lemma applyEntry_path:
  assumes "\<forall>s \<in> set (segments @ [leaf]). CHR ''-'' \<notin> set s"
  shows "applyEntry rt st i (joinPath (segments @ [leaf])) v
         = (case reduce_path rt st segments i of
              Inl e \<Rightarrow> (Some e, st)
            | Inr target \<Rightarrow> assign st target (toLowerCase leaf) v)"
proof -
  have "split CHR ''-'' (joinPath (segments @ [leaf])) = segments @ [leaf]"
    using assms by (intro split_joinPath) simp_all
  then show ?thesis by (simp add: applyEntry_def)
qed

lemma applyEntry_spec:
  assumes "applyEntry rt st i key v = (res, st')"
  shows "(res \<noteq> None \<and> st' = st)
         \<or> (\<exists>segments leaf target r.
               res = None \<and> key = joinPath (segments @ [leaf])
               \<and> (\<forall>s \<in> set (segments @ [leaf]). CHR ''-'' \<notin> set s)
               \<and> reaches rt st i segments target \<and> ref_of target = Some r
               \<and> st' = advance st [Assign r (toLowerCase leaf) v])"
proof -
  define segments where "segments = butlast (split CHR ''-'' key)"
  define leaf where "leaf = last (split CHR ''-'' key)"
  have sp: "split CHR ''-'' key = segments @ [leaf]"
    using split_nonempty [of "CHR ''-''" key] by (simp add: segments_def leaf_def)
  then have free: "\<forall>s \<in> set (segments @ [leaf]). CHR ''-'' \<notin> set s"
    using split_separator_free [of "CHR ''-''" key] by simp
  have key: "key = joinPath (segments @ [leaf])"
    using joinPath_split [of key] sp by simp
  have e: "applyEntry rt st i key v
         = (case reduce_path rt st segments i of
              Inl e \<Rightarrow> (Some e, st)
            | Inr target \<Rightarrow> assign st target (toLowerCase leaf) v)"
    using applyEntry_path [OF free, of rt st i v] key by simp
  show ?thesis
  proof (cases "reduce_path rt st segments i")
    case (Inl err)
    with assms e have "res \<noteq> None \<and> st' = st" by auto
    then show ?thesis by blast
  next
    case (Inr target)
    then have reach: "reaches rt st i segments target" by (simp add: reduce_path_reaches)
    show ?thesis
    proof (cases "ref_of target")
      case None
      with assms e Inr have "res \<noteq> None \<and> st' = st" by (auto simp: assign_def)
      then show ?thesis by blast
    next
      case (Some r)
      with assms e Inr have "res = None \<and> st' = advance st [Assign r (toLowerCase leaf) v]"
        by (simp add: assign_advance)
      with key free reach Some show ?thesis by blast
    qed
  qed
qed

lemma applyEntries_spec:
  assumes "applyEntries rt st i es = (res, st')"
  shows "\<exists>ws. st' = advance st ws
           \<and> (\<forall>k < length ws. \<exists>key v segments leaf target r.
                  (key, v) \<in> set es \<and> key = joinPath (segments @ [leaf])
                  \<and> (\<forall>s \<in> set (segments @ [leaf]). CHR ''-'' \<notin> set s)
                  \<and> reaches rt (advance st (take k ws)) i segments target \<and> ref_of target = Some r
                  \<and> ws ! k = Assign r (toLowerCase leaf) v)"
proof -
  define D where "D = (\<lambda>bag stx w. \<exists>key v segments leaf target r.
                  (key, v) \<in> set bag \<and> key = joinPath (segments @ [leaf])
                  \<and> (\<forall>s \<in> set (segments @ [leaf]). CHR ''-'' \<notin> set s)
                  \<and> reaches rt stx i segments target \<and> ref_of target = Some r
                  \<and> w = Assign r (toLowerCase leaf) v)"
  have mono: "D bag stx w \<Longrightarrow> D (e # bag) stx w" for bag stx w e
    unfolding D_def by (simp; blast)
  have "\<exists>ws. st' = advance st ws \<and> (\<forall>k < length ws. D es (advance st (take k ws)) (ws ! k))"
    using assms
  proof (induction es arbitrary: st)
    case Nil
    then have "st' = advance st []" by (simp add: advance_Nil)
    then show ?case by (intro exI [of _ "[]"]) simp
  next
    case (Cons e es)
    obtain key v where e: "e = (key, v)" by (cases e)
    obtain r1 st1 where a: "applyEntry rt st i key v = (r1, st1)"
      by (cases "applyEntry rt st i key v")
    from applyEntry_spec [OF a] show ?case
    proof
      assume "r1 \<noteq> None \<and> st1 = st"
      with Cons.prems a e have "st' = advance st []" by (auto simp: advance_Nil)
      then show ?thesis by (intro exI [of _ "[]"]) simp
    next
      assume "\<exists>segments leaf target r.
               r1 = None \<and> key = joinPath (segments @ [leaf])
               \<and> (\<forall>s \<in> set (segments @ [leaf]). CHR ''-'' \<notin> set s)
               \<and> reaches rt st i segments target \<and> ref_of target = Some r
               \<and> st1 = advance st [Assign r (toLowerCase leaf) v]"
      then obtain segments leaf target r where r1: "r1 = None"
        and key: "key = joinPath (segments @ [leaf])"
        and free: "\<forall>s \<in> set (segments @ [leaf]). CHR ''-'' \<notin> set s"
        and reach: "reaches rt st i segments target" and ref: "ref_of target = Some r"
        and st1: "st1 = advance st [Assign r (toLowerCase leaf) v]"
        by blast
      define w0 where "w0 = Assign r (toLowerCase leaf) v"
      have d0: "D (e # es) st w0"
        unfolding D_def w0_def using e key free reach ref by (simp; blast)
      from Cons.prems a e r1 have "applyEntries rt st1 i es = (res, st')" by simp
      from Cons.IH [OF this] obtain ws1 where s': "st' = advance st1 ws1"
        and all: "\<forall>k < length ws1. D es (advance st1 (take k ws1)) (ws1 ! k)"
        by blast
      have s'': "st' = advance st (w0 # ws1)"
        using s' st1 by (simp add: w0_def advance_append)
      have "D (e # es) (advance st (take k (w0 # ws1))) ((w0 # ws1) ! k)" if "k < length (w0 # ws1)" for k
      proof (cases k)
        case 0
        with d0 show ?thesis by (simp add: advance_Nil)
      next
        case (Suc j)
        with that have j: "j < length ws1" by simp
        have "advance st (w0 # take j ws1) = advance st1 (take j ws1)"
          by (simp add: st1 w0_def advance_append)
        with all j Suc show ?thesis by (simp add: mono)
      qed
      with s'' show ?thesis by blast
    qed
  qed
  then show ?thesis unfolding D_def .
qed

lemma applyProps_spec:
  "\<exists>ws. snd (applyProps rt st i newProps oldProps) = advance st ws
         \<and> (\<forall>k < length ws. \<exists>key v segments leaf target r.
                (key, v) \<in> set newProps \<and> key = joinPath (segments @ [leaf])
                \<and> (\<forall>s \<in> set (segments @ [leaf]). CHR ''-'' \<notin> set s)
                \<and> reaches rt (advance st (take k ws)) i segments target \<and> ref_of target = Some r
                \<and> ws ! k = Assign r (toLowerCase leaf) v)"
proof (cases "length (keys (filteredProps newProps oldProps)) > 0")
  case True
  obtain res st' where a: "applyEntries rt st i (filteredProps newProps oldProps) = (res, st')"
    by (cases "applyEntries rt st i (filteredProps newProps oldProps)")
  from applyEntries_spec [OF a] obtain ws where s: "st' = advance st ws"
    and all: "\<forall>k < length ws. \<exists>key v segments leaf target r.
                  (key, v) \<in> set (filteredProps newProps oldProps) \<and> key = joinPath (segments @ [leaf])
                  \<and> (\<forall>s \<in> set (segments @ [leaf]). CHR ''-'' \<notin> set s)
                  \<and> reaches rt (advance st (take k ws)) i segments target \<and> ref_of target = Some r
                  \<and> ws ! k = Assign r (toLowerCase leaf) v"
    by blast
  have "\<forall>k < length ws. \<exists>key v segments leaf target r.
                (key, v) \<in> set newProps \<and> key = joinPath (segments @ [leaf])
                \<and> (\<forall>s \<in> set (segments @ [leaf]). CHR ''-'' \<notin> set s)
                \<and> reaches rt (advance st (take k ws)) i segments target \<and> ref_of target = Some r
                \<and> ws ! k = Assign r (toLowerCase leaf) v"
  proof (intro allI impI)
    fix k assume "k < length ws"
    with all obtain key v segments leaf target r where
      "(key, v) \<in> set (filteredProps newProps oldProps)" "key = joinPath (segments @ [leaf])"
      "\<forall>s \<in> set (segments @ [leaf]). CHR ''-'' \<notin> set s"
      "reaches rt (advance st (take k ws)) i segments target" "ref_of target = Some r"
      "ws ! k = Assign r (toLowerCase leaf) v"
      by blast
    moreover from this(1) have "(key, v) \<in> set newProps"
      using filteredProps_subset [of newProps oldProps] by blast
    ultimately show "\<exists>key v segments leaf target r.
                (key, v) \<in> set newProps \<and> key = joinPath (segments @ [leaf])
                \<and> (\<forall>s \<in> set (segments @ [leaf]). CHR ''-'' \<notin> set s)
                \<and> reaches rt (advance st (take k ws)) i segments target \<and> ref_of target = Some r
                \<and> ws ! k = Assign r (toLowerCase leaf) v"
      by blast
  qed
  with True a s show ?thesis by (auto simp: applyProps_def)
next
  case False
  then have "snd (applyProps rt st i newProps oldProps) = advance st []"
    by (simp add: applyProps_def advance_Nil)
  then show ?thesis by (intro exI [of _ "[]"]) simp
qed

text \<open>
  Claim C8, as amended. The Property Applier reads the old bag at the keys of the new bag
  only: the entries of the old bag under other keys can be removed without changing the
  outcome. The store it leaves is the store it was given after a sequence of field
  assignments, and each of them is derived from an entry of the new bag: with the key
  taken apart at its separators, the lookups under the lower-cased segments but the last,
  from the node, in the store as the earlier assignments left it, end in the object that
  is written, the field is the lower-cased last segment, and the value is the entry's. A
  field of an object that none of these assignments names keeps its value: the field of a
  property removed from the bag is neither reset nor cleared, unless a key of the new bag
  leads to that same field.
\<close>

theorem applyProps_writes_from_new_bag_only:
  "applyProps rt st i newProps (filter (\<lambda>(key, value). key \<in> set (keys newProps)) oldProps)
     = applyProps rt st i newProps oldProps
   \<and> (\<exists>ws. snd (applyProps rt st i newProps oldProps) = advance st ws
         \<and> (\<forall>k < length ws. \<exists>key value segments leaf target r.
                (key, value) \<in> set newProps \<and> key = joinPath (segments @ [leaf])
                \<and> (\<forall>s \<in> set (segments @ [leaf]). CHR ''-'' \<notin> set s)
                \<and> reaches rt (advance st (take k ws)) i segments target \<and> ref_of target = Some r
                \<and> ws ! k = Assign r (toLowerCase leaf) value)
         \<and> (\<forall>r name. (\<forall>value. Assign r name value \<notin> set ws)
                \<longrightarrow> field (heap (snd (applyProps rt st i newProps oldProps)) r) name
                      = field (heap st r) name))"
proof
  show "applyProps rt st i newProps (filter (\<lambda>(key, value). key \<in> set (keys newProps)) oldProps)
     = applyProps rt st i newProps oldProps"
    by (simp add: applyProps_def filteredProps_old_restricted)
next
  from applyProps_spec [of rt st i newProps oldProps]
  obtain ws where s: "snd (applyProps rt st i newProps oldProps) = advance st ws"
    and all: "\<forall>k < length ws. \<exists>key value segments leaf target r.
                (key, value) \<in> set newProps \<and> key = joinPath (segments @ [leaf])
                \<and> (\<forall>s \<in> set (segments @ [leaf]). CHR ''-'' \<notin> set s)
                \<and> reaches rt (advance st (take k ws)) i segments target \<and> ref_of target = Some r
                \<and> ws ! k = Assign r (toLowerCase leaf) value"
    by blast
  have "\<forall>r name. (\<forall>value. Assign r name value \<notin> set ws)
                \<longrightarrow> field (heap (snd (applyProps rt st i newProps oldProps)) r) name
                      = field (heap st r) name"
    by (simp add: s advance_frame)
  with s all show "\<exists>ws. snd (applyProps rt st i newProps oldProps) = advance st ws
         \<and> (\<forall>k < length ws. \<exists>key value segments leaf target r.
                (key, value) \<in> set newProps \<and> key = joinPath (segments @ [leaf])
                \<and> (\<forall>s \<in> set (segments @ [leaf]). CHR ''-'' \<notin> set s)
                \<and> reaches rt (advance st (take k ws)) i segments target \<and> ref_of target = Some r
                \<and> ws ! k = Assign r (toLowerCase leaf) value)
         \<and> (\<forall>r name. (\<forall>value. Assign r name value \<notin> set ws)
                \<longrightarrow> field (heap (snd (applyProps rt st i newProps oldProps)) r) name
                      = field (heap st r) name)"
    by blast
qed

theorem applyProps_writes_from_new_bag_only_witness:
  "trace (snd (applyProps exampleRuntime exampleState (Object 1)
                 [(''rotation-x'', Number 3)] [(''position-x'', Number 1), (''rotation-x'', Number 2)]))
     = [Assign 12 ''x'' (Number 3)]
   \<and> field (heap exampleState 11) ''x'' = Number 0
   \<and> field (heap (snd (applyProps exampleRuntime exampleState (Object 1)
                        [(''rotation-x'', Number 3)] [(''position-x'', Number 1), (''rotation-x'', Number 2)]))
              11) ''x''
     = Number 0"
proof -
  let ?st' = "snd (applyProps exampleRuntime exampleState (Object 1)
                 [(''rotation-x'', Number 3)] [(''position-x'', Number 1), (''rotation-x'', Number 2)])"
  have t: "trace ?st' = [Assign 12 ''x'' (Number 3)]"
    by (simp add: bag_eval string_eval store_eval scene_eval)
  have p: "field (heap exampleState 11) ''x'' = Number 0"
    by (simp add: scene_eval)
  from applyProps_writes_from_new_bag_only
    [of exampleRuntime exampleState "Object 1" "[(''rotation-x'', Number 3)]"
        "[(''position-x'', Number 1), (''rotation-x'', Number 2)]", THEN conjunct2]
  obtain ws where s: "?st' = advance exampleState ws"
    and frame: "\<forall>r name. (\<forall>value. Assign r name value \<notin> set ws)
                \<longrightarrow> field (heap ?st' r) name = field (heap exampleState r) name"
    by blast
  from s t have "ws = [Assign 12 ''x'' (Number 3)]"
    by (simp add: advance_def exampleState_def)
  then have "\<forall>value. Assign 11 ''x'' value \<notin> set ws" by simp
  with frame have "field (heap ?st' 11) ''x'' = field (heap exampleState 11) ''x''" by blast
  with t p show ?thesis by simp
qed

text \<open>
  Claim C8 as stated fails where a key of the new bag leads to the field of the removed
  property: with \<^verbatim>\<open>color\<close> removed and \<^verbatim>\<open>Color\<close> new, the field \<^verbatim>\<open>color\<close> does not
  keep its value.
\<close>

theorem applyProps_removed_field_overwritten:
  "''color'' \<notin> set (keys [(''Color'', Number 2)])
   \<and> field (heap exampleState 2) ''color'' = Number 0
   \<and> field (heap (snd (applyProps exampleRuntime exampleState (Object 2)
                        [(''Color'', Number 2)] [(''color'', Number 0)])) 2) ''color''
     = Number 2"
  by (simp add: bag_eval string_eval store_eval scene_eval)




section \<open>Instantiation\<close>

text \<open>
  Claim C5, as amended. \<open>createInstance\<close> looks the constructor up under the type tag with
  its first letter upper-cased and applies the whole initial bag with the Property Applier
  against an empty old bag. It raises when the namespace has no such constructor (a
  TypeError, the store untouched), when the constructor raises, and when the Property
  Applier raises on the new object, and in no other case; otherwise it returns the new
  object with the bag applied. The adapter has no fallback and no retry: with an engine
  that raises what \<open>createInstance\<close> raises for the descriptor it is asked to mount, the
  error of a type tag without a constructor reaches the caller of \<open>render\<close>.
\<close>

theorem createInstance_raises:
  "(isl (fst (createInstance rt st type props)) \<longleftrightarrow>
      three rt (upperFirst type) = None
      \<or> (\<exists>ctor. three rt (upperFirst type) = Some ctor
            \<and> (isl (fst (ctor st))
                \<or> (\<exists>r st1. ctor st = (Inr r, st1)
                      \<and> fst (applyProps rt st1 (Object r) props []) \<noteq> None))))
   \<and> (three rt (upperFirst type) = None \<longrightarrow> createInstance rt st type props = (Inl TypeError, st))
   \<and> (three rt (upperFirst type) = Some ctor \<and> ctor st = (Inr r, st1)
        \<and> applyProps rt st1 (Object r) props [] = (None, st2)
       \<longrightarrow> createInstance rt st type props = (Inr (Object r), st2))
   \<and> (three rt (upperFirst type) = Some ctor \<and> ctor st = (Inr r, st1)
        \<and> applyProps rt st1 (Object r) props [] = (Some e, st2)
       \<longrightarrow> createInstance rt st type props = (Inl e, st2))
   \<and> (three rt (upperFirst type) = None
        \<and> (\<forall>root callback st' x err.
              fst (createInstance rt st' type props) = Inl err
              \<longrightarrow> fst (updateContainer Renderer (Some (type, props)) root callback (st', x)) = Some err)
       \<longrightarrow> fst (render Renderer (Some (type, props)) container s) = Inl TypeError)"
proof (intro conjI impI)
  show "isl (fst (createInstance rt st type props)) \<longleftrightarrow>
      three rt (upperFirst type) = None
      \<or> (\<exists>ctor. three rt (upperFirst type) = Some ctor
            \<and> (isl (fst (ctor st))
                \<or> (\<exists>r st1. ctor st = (Inr r, st1)
                      \<and> fst (applyProps rt st1 (Object r) props []) \<noteq> None)))"
  proof (cases "three rt (upperFirst type)")
    case None
    then show ?thesis by (simp add: createInstance_def)
  next
    case (Some ctor)
    then show ?thesis
      by (cases "ctor st") (auto simp: createInstance_def split: sum.splits option.splits prod.splits)
  qed
next
  assume "three rt (upperFirst type) = None"
  then show "createInstance rt st type props = (Inl TypeError, st)"
    by (simp add: createInstance_def)
next
  assume "three rt (upperFirst type) = Some ctor \<and> ctor st = (Inr r, st1)
        \<and> applyProps rt st1 (Object r) props [] = (None, st2)"
  then show "createInstance rt st type props = (Inr (Object r), st2)"
    by (simp add: createInstance_def)
next
  assume "three rt (upperFirst type) = Some ctor \<and> ctor st = (Inr r, st1)
        \<and> applyProps rt st1 (Object r) props [] = (Some e, st2)"
  then show "createInstance rt st type props = (Inl e, st2)"
    by (simp add: createInstance_def)
next
  assume a: "three rt (upperFirst type) = None
        \<and> (\<forall>root callback st' x err.
              fst (createInstance rt st' type props) = Inl err
              \<longrightarrow> fst (updateContainer Renderer (Some (type, props)) root callback (st', x)) = Some err)"
  then have raises: "fst (createInstance rt st' type props) = Inl TypeError" for st'
    by (simp add: createInstance_def)
  with a have up: "fst (updateContainer Renderer (Some (type, props)) root callback e) = Some TypeError"
    for root callback e
    by (cases e) blast
  obtain root s1 where l: "(case map_of (roots s) container of
               Some root \<Rightarrow> (root, s)
             | None \<Rightarrow>
                 (let (root, e1) = createContainer Renderer container (engine s)
                  in (root, s\<lparr>roots := AList.update container root (roots s), engine := e1\<rparr>)))
            = (root, s1)"
    by (cases "(case map_of (roots s) container of
               Some root \<Rightarrow> (root, s)
             | None \<Rightarrow>
                 (let (root, e1) = createContainer Renderer container (engine s)
                  in (root, s\<lparr>roots := AList.update container root (roots s), engine := e1\<rparr>)))")
  obtain err invoked e2 where u:
    "updateContainer Renderer (Some (type, props)) root None (engine s1) = (err, invoked, e2)"
    by (cases "updateContainer Renderer (Some (type, props)) root None (engine s1)")
  with up [of root None "engine s1"] have "err = Some TypeError" by simp
  with l u show "fst (render Renderer (Some (type, props)) container s) = Inl TypeError"
    by (simp add: render_def)
qed

theorem createInstance_raises_witness:
  "three exampleRuntime (upperFirst ''mesh'') = Some newObject
   \<and> newObject exampleState
       = (Inr 20, exampleState\<lparr>heap := (heap exampleState)(20 := blank), fresh := 21\<rparr>)
   \<and> createInstance exampleRuntime exampleState ''mesh'' [(''visible'', Boolean False)]
       = (Inr (Object 20),
          exampleState\<lparr>heap := (heap exampleState)
                          (20 := blank\<lparr>field := (field blank)(''visible'' := Boolean False)\<rparr>),
                        fresh := 21, trace := [Assign 20 ''visible'' (Boolean False)]\<rparr>)
   \<and> three exampleRuntime (upperFirst ''sprocket'') = None
   \<and> fst (render (mountingEngine exampleRuntime) (Some (''sprocket'', [])) ''scene''
            (noMounts (exampleState, 0)))
       = Inl TypeError"
proof -
  have a: "three exampleRuntime (upperFirst ''mesh'') = Some newObject"
    by (simp add: exampleRuntime_def upper_char_def upper_letters_def lower_letters_def)
  have b: "newObject exampleState
       = (Inr 20, exampleState\<lparr>heap := (heap exampleState)(20 := blank), fresh := 21\<rparr>)"
    by (simp add: newObject_def exampleState_def)
  have c: "applyProps exampleRuntime (exampleState\<lparr>heap := (heap exampleState)(20 := blank), fresh := 21\<rparr>)
             (Object 20) [(''visible'', Boolean False)] []
           = (None, exampleState\<lparr>heap := (heap exampleState)
                          (20 := blank\<lparr>field := (field blank)(''visible'' := Boolean False)\<rparr>),
                        fresh := 21, trace := [Assign 20 ''visible'' (Boolean False)]\<rparr>)"
    by (simp add: exampleState_def bag_eval string_eval store_eval)
  from createInstance_raises
    [where rt = exampleRuntime and st = exampleState and type = "''mesh''"
       and props = "[(''visible'', Boolean False)]" and ctor = newObject and r = 20
       and ?st1.0 = "exampleState\<lparr>heap := (heap exampleState)(20 := blank), fresh := 21\<rparr>"
       and ?st2.0 = "exampleState\<lparr>heap := (heap exampleState)
                          (20 := blank\<lparr>field := (field blank)(''visible'' := Boolean False)\<rparr>),
                        fresh := 21, trace := [Assign 20 ''visible'' (Boolean False)]\<rparr>",
     THEN conjunct2, THEN conjunct2, THEN conjunct1, THEN mp] a b c
  have d: "createInstance exampleRuntime exampleState ''mesh'' [(''visible'', Boolean False)]
       = (Inr (Object 20),
          exampleState\<lparr>heap := (heap exampleState)
                          (20 := blank\<lparr>field := (field blank)(''visible'' := Boolean False)\<rparr>),
                        fresh := 21, trace := [Assign 20 ''visible'' (Boolean False)]\<rparr>)"
    by blast
  have n: "three exampleRuntime (upperFirst ''sprocket'') = None"
    by (simp add: exampleRuntime_def upper_char_def upper_letters_def lower_letters_def)
  have h: "\<forall>root callback st' x err.
              fst (createInstance exampleRuntime st' ''sprocket'' []) = Inl err
              \<longrightarrow> fst (updateContainer (mountingEngine exampleRuntime) (Some (''sprocket'', []))
                         root callback (st', x :: nat)) = Some err"
    by (auto simp: mountingEngine_def split: prod.splits sum.splits)
  from createInstance_raises
    [where rt = exampleRuntime and type = "''sprocket''" and props = "[]"
       and Renderer = "mountingEngine exampleRuntime" and container = "''scene''"
       and s = "noMounts (exampleState, 0)",
     THEN conjunct2, THEN conjunct2, THEN conjunct2, THEN conjunct2, THEN mp] n h
  have "fst (render (mountingEngine exampleRuntime) (Some (''sprocket'', [])) ''scene''
            (noMounts (exampleState, 0)))
       = Inl TypeError"
    by blast
  with a b d n show ?thesis by blast
qed

text \<open>
  Claim C5 as stated fails twice. With the constructor \<^verbatim>\<open>Mesh\<close> present, the bag
  \<^verbatim>\<open>{ "foo-bar": 1 }\<close> names a path through the undefined field \<^verbatim>\<open>foo\<close> of the new
  object, and \<open>createInstance\<close> raises a TypeError. And the error of the type tag
  \<^verbatim>\<open>sprocket\<close>, which has no constructor, does not reach the caller of \<open>render\<close> when the
  engine handles it itself.
\<close>

theorem createInstance_bad_path_raises:
  "three exampleRuntime (upperFirst ''mesh'') \<noteq> None
   \<and> fst (createInstance exampleRuntime exampleState ''mesh'' [(''foo-bar'', Number 1)]) = Inl TypeError
   \<and> three exampleRuntime (upperFirst ''sprocket'') = None
   \<and> fst (createInstance exampleRuntime exampleState ''sprocket'' []) = Inl TypeError
   \<and> fst (render (recoveringEngine exampleRuntime) (Some (''sprocket'', [])) ''scene''
            (noMounts (exampleState, 0)))
       = Inr 1"
  by (simp add: createInstance_def exampleRuntime_def newObject_def exampleState_def blank_def
      bag_eval string_eval store_eval render_def recoveringEngine_def noMounts_def)


section \<open>The root table\<close>

lemma render_registered:
  "map_of (roots s) container = Some root \<Longrightarrow>
   render Renderer element container s
   = (case updateContainer Renderer element root None (engine s) of
        (Some err, invoked, e2) \<Rightarrow> (Inl err, s\<lparr>engine := e2\<rparr>)
      | (None, invoked, e2) \<Rightarrow> (Inr (getPublicRootInstance Renderer root e2), s\<lparr>engine := e2\<rparr>))"
  by (simp add: render_def)

lemma render_roots:
  "roots (snd (render Renderer element container s))
   = (case map_of (roots s) container of
        Some root \<Rightarrow> roots s
      | None \<Rightarrow> AList.update container (fst (createContainer Renderer container (engine s))) (roots s))"
  by (auto simp: render_def split: option.splits prod.splits)

lemma render_registers:
  "\<exists>root. map_of (roots (snd (render Renderer element container s))) container = Some root"
  by (cases "map_of (roots s) container") (auto simp: render_roots update_conv')

lemma render_distinct:
  "distinct (map fst (roots s)) \<Longrightarrow> distinct (map fst (roots (snd (render Renderer element container s))))"
  by (simp add: render_roots distinct_update split: option.splits)

lemma renders_distinct:
  "distinct (map fst (roots s)) \<Longrightarrow> distinct (map fst (roots (renders Renderer calls s)))"
  by (induction calls arbitrary: s) (auto simp: render_distinct)

lemma distinct_keys_count:
  "distinct (map fst al) \<Longrightarrow> length (filter (\<lambda>entry. fst entry = k) al) \<le> 1"
  by (induction al) (auto simp: filter_empty_conv rev_image_eqI)

lemma distinct_keys_count_one:
  "distinct (map fst al) \<Longrightarrow> map_of al k = Some v \<Longrightarrow> length (filter (\<lambda>entry. fst entry = k) al) = 1"
  by (induction al) (auto simp: filter_empty_conv rev_image_eqI split: if_splits)

lemma renders_noMounts_count:
  "length (filter (\<lambda>entry. fst entry = c) (roots (renders Renderer calls (noMounts e)))) \<le> 1"
proof -
  have "distinct (map fst (roots (renders Renderer calls (noMounts e))))"
    by (rule renders_distinct) (simp add: noMounts_def)
  then show ?thesis by (rule distinct_keys_count)
qed

text \<open>
  Claim C6. After \<open>render\<close> on a container the table holds a root for it, and a second
  \<open>render\<close> on the same container runs the engine's update on that very root without
  creating a container, leaving the table as it is. A table with one entry per container
  keeps that property through any sequence of \<open>render\<close> calls and has exactly one entry
  for a container rendered twice; starting from the empty table, no container ever has
  two entries.
\<close>

theorem render_reuses_root:
  "(\<exists>root. map_of (roots (snd (render Renderer element container s))) container = Some root
       \<and> render Renderer element' container (snd (render Renderer element container s))
           = (case updateContainer Renderer element' root None (engine (snd (render Renderer element container s))) of
                (Some err, invoked, e2) \<Rightarrow> (Inl err, snd (render Renderer element container s)\<lparr>engine := e2\<rparr>)
              | (None, invoked, e2) \<Rightarrow> (Inr (getPublicRootInstance Renderer root e2),
                                snd (render Renderer element container s)\<lparr>engine := e2\<rparr>)))
   \<and> roots (snd (render Renderer element' container (snd (render Renderer element container s))))
       = roots (snd (render Renderer element container s))
   \<and> (distinct (map fst (roots s)) \<longrightarrow>
        distinct (map fst (roots (renders Renderer calls s)))
        \<and> length (filter (\<lambda>entry. fst entry = container)
                    (roots (snd (render Renderer element' container (snd (render Renderer element container s)))))) = 1)
   \<and> (\<forall>c. length (filter (\<lambda>entry. fst entry = c) (roots (renders Renderer calls (noMounts e)))) \<le> 1)"
proof (intro conjI impI)
  obtain root where r: "map_of (roots (snd (render Renderer element container s))) container = Some root"
    using render_registers [of Renderer element container s] by blast
  then show "\<exists>root. map_of (roots (snd (render Renderer element container s))) container = Some root
       \<and> render Renderer element' container (snd (render Renderer element container s))
           = (case updateContainer Renderer element' root None (engine (snd (render Renderer element container s))) of
                (Some err, invoked, e2) \<Rightarrow> (Inl err, snd (render Renderer element container s)\<lparr>engine := e2\<rparr>)
              | (None, invoked, e2) \<Rightarrow> (Inr (getPublicRootInstance Renderer root e2),
                                snd (render Renderer element container s)\<lparr>engine := e2\<rparr>))"
    by (simp add: render_registered)
  from r show same: "roots (snd (render Renderer element' container (snd (render Renderer element container s))))
       = roots (snd (render Renderer element container s))"
    by (simp add: render_roots [of Renderer element' container])
  {
    assume d: "distinct (map fst (roots s))"
    then show "distinct (map fst (roots (renders Renderer calls s)))" by (rule renders_distinct)
    from d have "distinct (map fst (roots (snd (render Renderer element container s))))"
      by (rule render_distinct)
    from distinct_keys_count_one [OF this r]
    show "length (filter (\<lambda>entry. fst entry = container)
                    (roots (snd (render Renderer element' container (snd (render Renderer element container s)))))) = 1"
      by (simp only: same)
  }
  show "\<forall>c. length (filter (\<lambda>entry. fst entry = c) (roots (renders Renderer calls (noMounts e)))) \<le> 1"
    by (intro allI renders_noMounts_count)
qed

lemmas engine_eval = render_def unmountComponentAtNode_def exampleEngine_def noMounts_def

theorem render_reuses_root_witness:
  "distinct (map fst (roots (noMounts (0, 0) :: (string, nat, nat \<times> nat) mounts)))
   \<and> renders exampleEngine [(Some True, ''scene''), (Some True, ''scene''), (Some True, ''other'')] (noMounts (0, 0))
       = \<lparr>roots = [(''scene'', 1), (''other'', 2)], engine = (2, 3)\<rparr>
   \<and> length (filter (\<lambda>entry. fst entry = ''scene'')
               (roots (snd (render exampleEngine (Some True) ''scene''
                             (snd (render exampleEngine (Some True) ''scene'' (noMounts (0, 0)))))))) = 1"
proof -
  have d: "distinct (map fst (roots (noMounts (0, 0) :: (string, nat, nat \<times> nat) mounts)))"
    by (simp add: noMounts_def)
  have r: "renders exampleEngine [(Some True, ''scene''), (Some True, ''scene''), (Some True, ''other'')] (noMounts (0, 0))
       = \<lparr>roots = [(''scene'', 1), (''other'', 2)], engine = (2, 3)\<rparr>"
    by (simp add: engine_eval)
  from render_reuses_root
    [of exampleEngine "Some True" "''scene''" "noMounts (0, 0)" "Some True" "[]" "(0, 0)",
     THEN conjunct2, THEN conjunct2, THEN conjunct1, THEN mp, OF d]
  have "length (filter (\<lambda>entry. fst entry = ''scene'')
               (roots (snd (render exampleEngine (Some True) ''scene''
                             (snd (render exampleEngine (Some True) ''scene'' (noMounts (0, 0)))))))) = 1"
    by (rule conjunct2)
  with d r show ?thesis by blast
qed


text \<open>
  Claim C7, as amended. On a container without an entry, \<open>unmountComponentAtNode\<close>
  completes without an error and returns the state as it was. On a container with an
  entry it hands the engine the deletion as the completion callback. When the engine has
  invoked the callback by the time the update returns, the entry is deleted from the
  table, not marked: the container is no longer among the keys, and a following
  \<open>render\<close> on it creates a container anew and registers the handle it gets. When the
  engine has deferred the callback, the table is as it was.
\<close>

theorem unmount_removes_entry:
  "(map_of (roots s) container = None \<longrightarrow> unmountComponentAtNode Renderer container s = (None, s))
   \<and> (map_of (roots s) container = Some root
        \<and> updateContainer Renderer None root (Some (AList.delete container)) (engine s)
            = (err, True, e1)
       \<longrightarrow> unmountComponentAtNode Renderer container s
             = (err, s\<lparr>engine := e1, roots := AList.delete container (roots s)\<rparr>)
           \<and> container \<notin> fst ` set (roots (snd (unmountComponentAtNode Renderer container s)))
           \<and> map_of (roots (snd (unmountComponentAtNode Renderer container s))) container = None
           \<and> roots (snd (render Renderer element container (snd (unmountComponentAtNode Renderer container s))))
               = AList.update container (fst (createContainer Renderer container e1))
                   (AList.delete container (roots s)))
   \<and> (map_of (roots s) container = Some root
        \<and> updateContainer Renderer None root (Some (AList.delete container)) (engine s)
            = (err, False, e1)
       \<longrightarrow> unmountComponentAtNode Renderer container s = (err, s\<lparr>engine := e1\<rparr>))"
proof (intro conjI impI)
  assume "map_of (roots s) container = None"
  then show "unmountComponentAtNode Renderer container s = (None, s)"
    by (simp add: unmountComponentAtNode_def)
next
  assume a: "map_of (roots s) container = Some root
        \<and> updateContainer Renderer None root (Some (AList.delete container)) (engine s)
            = (err, True, e1)"
  then show u: "unmountComponentAtNode Renderer container s
             = (err, s\<lparr>engine := e1, roots := AList.delete container (roots s)\<rparr>)"
    by (simp add: unmountComponentAtNode_def)
  show "container \<notin> fst ` set (roots (snd (unmountComponentAtNode Renderer container s)))"
    by (simp add: u delete_notin_dom)
  show n: "map_of (roots (snd (unmountComponentAtNode Renderer container s))) container = None"
    by (simp add: u delete_conv')
  show "roots (snd (render Renderer element container (snd (unmountComponentAtNode Renderer container s))))
               = AList.update container (fst (createContainer Renderer container e1))
                   (AList.delete container (roots s))"
    using n by (simp add: render_roots) (simp add: u)
next
  assume "map_of (roots s) container = Some root
        \<and> updateContainer Renderer None root (Some (AList.delete container)) (engine s)
            = (err, False, e1)"
  then show "unmountComponentAtNode Renderer container s = (err, s\<lparr>engine := e1\<rparr>)"
    by (simp add: unmountComponentAtNode_def)
qed

theorem unmount_removes_entry_witness:
  "map_of (roots \<lparr>roots = [(''scene'', 1)], engine = (1, 1)\<rparr>) ''scene'' = Some 1
   \<and> updateContainer exampleEngine None 1 (Some (AList.delete ''scene''))
        (engine \<lparr>roots = [(''scene'', 1::nat)], engine = (1, 1)\<rparr>) = (None, True, (1, 2))
   \<and> unmountComponentAtNode exampleEngine ''scene'' \<lparr>roots = [(''scene'', 1)], engine = (1, 1)\<rparr>
       = (None, \<lparr>roots = [], engine = (1, 2)\<rparr>)
   \<and> roots (snd (render exampleEngine (Some True) ''scene''
                   (snd (unmountComponentAtNode exampleEngine ''scene'' \<lparr>roots = [(''scene'', 1)], engine = (1, 1)\<rparr>))))
       = [(''scene'', 2)]
   \<and> map_of (roots \<lparr>roots = [(''scene'', 1)], engine = (1, 1)\<rparr>) ''other'' = None
   \<and> unmountComponentAtNode exampleEngine ''other'' \<lparr>roots = [(''scene'', 1)], engine = (1, 1)\<rparr>
       = (None, \<lparr>roots = [(''scene'', 1)], engine = (1, 1)\<rparr>)"
proof -
  have a: "map_of (roots \<lparr>roots = [(''scene'', 1::nat)], engine = (1::nat, 1::nat)\<rparr>) ''scene'' = Some 1
        \<and> updateContainer exampleEngine None 1 (Some (AList.delete ''scene''))
             (engine \<lparr>roots = [(''scene'', 1::nat)], engine = (1, 1)\<rparr>) = (None, True, (1, 2))"
    by (simp add: exampleEngine_def)
  have b: "map_of (roots \<lparr>roots = [(''scene'', 1::nat)], engine = (1::nat, 1::nat)\<rparr>) ''other'' = None"
    by simp
  note t1 = unmount_removes_entry
    [where s = "\<lparr>roots = [(''scene'', 1)], engine = (1, 1)\<rparr>" and container = "''scene''"
       and Renderer = exampleEngine and root = 1 and err = None and ?e1.0 = "(1, 2)"
       and element = "Some True",
     THEN conjunct2, THEN conjunct1, THEN mp, OF a]
  note t2 = unmount_removes_entry
    [where s = "\<lparr>roots = [(''scene'', 1)], engine = (1, 1)\<rparr>" and container = "''other''"
       and Renderer = exampleEngine,
     THEN conjunct1, THEN mp, OF b]
  have v: "AList.update ''scene'' (fst (createContainer exampleEngine ''scene'' (1, 2)))
             (AList.delete ''scene'' (roots \<lparr>roots = [(''scene'', 1::nat)], engine = (1::nat, 1::nat)\<rparr>))
           = [(''scene'', 2)]"
    by (simp add: exampleEngine_def)
  have "unmountComponentAtNode exampleEngine ''scene'' \<lparr>roots = [(''scene'', 1)], engine = (1, 1)\<rparr>
       = (None, \<lparr>roots = [], engine = (1, 2)\<rparr>)"
    using t1 [THEN conjunct1] by simp
  moreover have "roots (snd (render exampleEngine (Some True) ''scene''
                   (snd (unmountComponentAtNode exampleEngine ''scene'' \<lparr>roots = [(''scene'', 1)], engine = (1, 1)\<rparr>))))
       = [(''scene'', 2)]"
    using t1 [THEN conjunct2, THEN conjunct2, THEN conjunct2] by (simp only: v)
  ultimately show ?thesis using a b t2 by simp
qed

text \<open>
  Claim C7 as stated fails with an engine that defers the callback: the entry is still in
  the table when \<open>unmountComponentAtNode\<close> has returned, and a following \<open>render\<close>
  reuses the old root without creating a container.
\<close>

theorem unmount_deferred_entry_stays:
  "map_of (roots \<lparr>roots = [(''scene'', 1)], engine = (1, 1)\<rparr>) ''scene'' = Some (1::nat)
   \<and> unmountComponentAtNode deferringEngine ''scene'' \<lparr>roots = [(''scene'', 1)], engine = (1, 1)\<rparr>
       = (None, \<lparr>roots = [(''scene'', 1)], engine = (1, 2)\<rparr>)
   \<and> render deferringEngine (Some True) ''scene''
        (snd (unmountComponentAtNode deferringEngine ''scene'' \<lparr>roots = [(''scene'', 1)], engine = (1, 1)\<rparr>))
       = (Inr 1, \<lparr>roots = [(''scene'', 1)], engine = (1, 3)\<rparr>)"
  by (simp add: unmountComponentAtNode_def render_def deferringEngine_def exampleEngine_def)

end
